theory Spec2Isabelle
  imports Complex_Main
begin

section \<open>The rally simulation of rally\_app.py\<close>

text \<open>
  The race is the body of the \<^verbatim>\<open>if st.button("Start Race!")\<close> block
  (lines 140 to 188). Python floats are modelled as real numbers: rounding, overflow and
  NaN are outside the model. A division whose divisor is zero raises
  \<^verbatim>\<open>ZeroDivisionError\<close> in Python, and the model returns that error.
\<close>

subsection \<open>Data\<close>

text \<open>One row of \<^verbatim>\<open>cars_df\<close>: the columns of the join that the race reads.\<close>

record car =
  TEAM_NAME :: string
  MODEL :: string
  HORSEPOWER :: real
  DRIVETRAIN :: string
  MIN_WEIGHT_KG :: real
  DRIVER_NAME :: string
  SKILL_LEVEL :: real
  LUCK_LEVEL :: real

text \<open>One entry of \<^verbatim>\<open>race_results\<close> (lines 168 to 171).\<close>

record race_result =
  Team :: string
  Driver :: string
  Car_Model :: string
  Time :: real

datatype error = ZeroDivisionError | IndexError

subsection \<open>The performance model (lines 160 to 166)\<close>

definition truediv :: "real \<Rightarrow> real \<Rightarrow> error + real" where
  "truediv a b = (if b = 0 then Inl ZeroDivisionError else Inr (a / b))"

definition drivetrain_bonus :: "car \<Rightarrow> real" where
  "drivetrain_bonus c = (if DRIVETRAIN c = ''4WD'' then 1.05 else 1.0)"

definition skill_factor :: "car \<Rightarrow> real" where
  "skill_factor c = 1 + ((SKILL_LEVEL c - 50) / 50) * 0.1"

text \<open>
  \<^verbatim>\<open>random.uniform(a, b)\<close> of the standard library returns
  \<^verbatim>\<open>a + (b - a) * random()\<close>; the draw \<open>u\<close> of \<^verbatim>\<open>random()\<close>,
  a number in \<open>[0, 1)\<close>, is an input of the model.
\<close>

definition uniform :: "real \<Rightarrow> real \<Rightarrow> real \<Rightarrow> real" where
  "uniform a b u = a + (b - a) * u"

definition luck_factor :: "car \<Rightarrow> real \<Rightarrow> real" where
  "luck_factor c u = uniform (1 - LUCK_LEVEL c / 1000) (1 + LUCK_LEVEL c / 1000) u"

text \<open>Lines 160, 165 and 166 for a luck factor \<open>l\<close> already drawn.\<close>

definition time_taken :: "car \<Rightarrow> real \<Rightarrow> error + real" where
  "time_taken c l =
     (case truediv (HORSEPOWER c) (MIN_WEIGHT_KG c) of
        Inl e \<Rightarrow> Inl e
      | Inr power_to_weight \<Rightarrow>
          (let performance_score = power_to_weight * drivetrain_bonus c * skill_factor c * l
           in truediv 100 performance_score))"


definition in_luck_range :: "car \<Rightarrow> real \<Rightarrow> bool" where
  "in_luck_range c l \<longleftrightarrow> 1 - LUCK_LEVEL c / 1000 \<le> l \<and> l \<le> 1 + LUCK_LEVEL c / 1000"

definition rally_car :: car where
  "rally_car = \<lparr>TEAM_NAME = ''A'', MODEL = ''Quattro'', HORSEPOWER = 200,
     DRIVETRAIN = ''4WD'', MIN_WEIGHT_KG = 1000, DRIVER_NAME = ''Ann'',
     SKILL_LEVEL = 50, LUCK_LEVEL = 50\<rparr>"

subsection \<open>The database and the page\<close>

text \<open>
  The table \<^verbatim>\<open>TEAMS\<close> is a list of rows (team name, budget). The race reaches the
  database only through \<^verbatim>\<open>execute_command\<close> (lines 33 to 45) with the two
  \<^verbatim>\<open>UPDATE ... SET budget = budget + delta WHERE team_name = team\<close> commands of
  lines 153 and 184. What the database answers to the \<open>n\<close>-th call is an input of the
  model.
\<close>

type_synonym teams_table = "(string \<times> real) list"

datatype db_outcome = Applied | CommandFailed | ConnectionFailed

text \<open>
  What the race does that can be observed, in the order it does it. A command carries the
  team, the amount added to the budget, and whether the database applied it.
\<close>

datatype event =
    Warning_shown
  | Info_shown
  | Details_shown real real
  | Command string real bool
  | Error_shown
  | Fees_collected_shown
  | Simulated race_result
  | Results_shown "race_result list"
  | Winner_shown string string
  | Award_shown real string
  | Rerun

record world =
  teams :: teams_table
  commands :: nat
  trace :: "event list"

datatype outcome = Aborted | Stopped | Crashed error | Settled

definition log :: "event list \<Rightarrow> world \<Rightarrow> world" where
  "log es w = w\<lparr>trace := trace w @ es\<rparr>"

definition update_budget :: "real \<Rightarrow> string \<Rightarrow> teams_table \<Rightarrow> teams_table" where
  "update_budget delta team tbl =
     map (\<lambda>(name, budget). if name = team then (name, budget + delta) else (name, budget)) tbl"

text \<open>
  \<^verbatim>\<open>execute_command\<close>: when the connection cannot be opened,
  \<^verbatim>\<open>snowflake_connection\<close> shows an error and calls \<^verbatim>\<open>st.stop()\<close>, outside the
  \<^verbatim>\<open>try\<close> of \<^verbatim>\<open>execute_command\<close>, which ends the script (\<open>Inl\<close>). When the
  command fails, the error is shown and \<^verbatim>\<open>False\<close> returned. Otherwise the rows of
  the team are updated and \<^verbatim>\<open>True\<close> returned.
\<close>

definition execute_command ::
  "(nat \<Rightarrow> db_outcome) \<Rightarrow> real \<Rightarrow> string \<Rightarrow> world \<Rightarrow> world + (bool \<times> world)" where
  "execute_command db delta team w =
     (let w1 = w\<lparr>commands := Suc (commands w)\<rparr> in
      case db (commands w) of
        ConnectionFailed \<Rightarrow> Inl (log [Error_shown] w1)
      | CommandFailed \<Rightarrow> Inr (False, log [Command team delta False, Error_shown] w1)
      | Applied \<Rightarrow>
          Inr (True, (log [Command team delta True] w1)
                 \<lparr>teams := update_budget delta team (teams w)\<rparr>))"

subsection \<open>The race (lines 140 to 188)\<close>

text \<open>
  \<^verbatim>\<open>Series.unique()\<close> of pandas: the distinct values in the order of their first
  appearance.
\<close>

fun unique_from :: "'a list \<Rightarrow> 'a list \<Rightarrow> 'a list" where
  "unique_from seen [] = []"
| "unique_from seen (x # xs) =
     (if x \<in> set seen then unique_from seen xs else x # unique_from (x # seen) xs)"

definition unique :: "'a list \<Rightarrow> 'a list" where
  "unique xs = unique_from [] xs"

definition FEE :: real where
  "FEE = 1000"

definition PRIZE :: "car list \<Rightarrow> real" where
  "PRIZE cars_df = real (length (unique (map TEAM_NAME cars_df))) * FEE * 0.8"

text \<open>Lines 151 to 153: one command for each team of \<^verbatim>\<open>teams_in_race\<close>.\<close>

fun collect_fees :: "(nat \<Rightarrow> db_outcome) \<Rightarrow> string list \<Rightarrow> world \<Rightarrow> world + world" where
  "collect_fees db [] w = Inr w"
| "collect_fees db (team # teams_in_race) w =
     (case execute_command db (- FEE) team w of
        Inl w' \<Rightarrow> Inl w'
      | Inr (ok, w') \<Rightarrow> collect_fees db teams_in_race w')"

definition make_result :: "car \<Rightarrow> real \<Rightarrow> race_result" where
  "make_result c t =
     \<lparr>Team = TEAM_NAME c, Driver = DRIVER_NAME c, Car_Model = MODEL c, Time = t\<rparr>"

text \<open>
  Lines 157 to 172: the loop over the rows of \<^verbatim>\<open>cars_df\<close>. The \<open>i\<close>-th row uses
  the \<open>i\<close>-th draw \<open>rng i\<close> of the random source. The loop returns the results appended
  so far and the exception that ended it, if one did.
\<close>

fun simulate :: "(nat \<Rightarrow> real) \<Rightarrow> nat \<Rightarrow> car list \<Rightarrow> race_result list \<times> error option" where
  "simulate rng i [] = ([], None)"
| "simulate rng i (c # cs) =
     (case time_taken c (luck_factor c (rng i)) of
        Inl e \<Rightarrow> ([], Some e)
      | Inr t \<Rightarrow> (case simulate rng (Suc i) cs of (rs, e) \<Rightarrow> (make_result c t # rs, e)))"

text \<open>
  Lines 175 to 188. \<^verbatim>\<open>sort_values(by="Time")\<close> is called with the default
  \<^verbatim>\<open>kind\<close> of pandas (quicksort), whose order among equal keys pandas does not fix;
  the sorting function is an input of the model. \<^verbatim>\<open>iloc[0]\<close> raises
  \<^verbatim>\<open>IndexError\<close> on an empty frame.
\<close>

definition award ::
  "(race_result list \<Rightarrow> race_result list) \<Rightarrow> (nat \<Rightarrow> db_outcome) \<Rightarrow> real \<Rightarrow>
   race_result list \<Rightarrow> world \<Rightarrow> outcome \<times> world" where
  "award sort_values db prize race_results w =
     (case sort_values race_results of
        [] \<Rightarrow> (Crashed IndexError, w)
      | winner # others \<Rightarrow>
          (let w1 = log [Results_shown (winner # others),
                         Winner_shown (Driver winner) (Team winner)] w in
           case execute_command db prize (Team winner) w1 of
             Inl w2 \<Rightarrow> (Stopped, w2)
           | Inr (ok, w2) \<Rightarrow> (Settled, log [Award_shown prize (Team winner), Rerun] w2)))"

definition start_race ::
  "(race_result list \<Rightarrow> race_result list) \<Rightarrow> (nat \<Rightarrow> db_outcome) \<Rightarrow> (nat \<Rightarrow> real) \<Rightarrow>
   car list \<Rightarrow> teams_table \<Rightarrow> outcome \<times> world" where
  "start_race sort_values db rng cars_df teams0 =
     (let w0 = \<lparr>teams = teams0, commands = 0, trace = []\<rparr> in
      if length cars_df < 2 then (Aborted, log [Warning_shown] w0)
      else
        (let w1 = log [Info_shown, Details_shown FEE (PRIZE cars_df)] w0 in
         case collect_fees db (unique (map TEAM_NAME cars_df)) w1 of
           Inl w2 \<Rightarrow> (Stopped, w2)
         | Inr w2 \<Rightarrow>
             (case simulate rng 0 cars_df of
                (race_results, Some e) \<Rightarrow>
                  (Crashed e, log (Fees_collected_shown # map Simulated race_results) w2)
              | (race_results, None) \<Rightarrow>
                  award sort_values db (PRIZE cars_df) race_results
                    (log (Fees_collected_shown # map Simulated race_results) w2))))"


subsection \<open>Reading a trace\<close>

text \<open>
  The commands of a trace, each with the team, the signed amount and whether it was
  applied; the commands that ask to lower a budget and those that ask to raise one; the
  ledger of the commands that the database applied, with its debits and its credits;
  and whether an event is a simulation.
\<close>

fun sent :: "event list \<Rightarrow> (string \<times> real \<times> bool) list" where
  "sent [] = []"
| "sent (Command team delta applied # es) = (team, delta, applied) # sent es"
| "sent (e # es) = sent es"

definition fee_commands :: "event list \<Rightarrow> (string \<times> real \<times> bool) list" where
  "fee_commands es = filter (\<lambda>c. fst (snd c) < 0) (sent es)"

definition prize_commands :: "event list \<Rightarrow> (string \<times> real \<times> bool) list" where
  "prize_commands es = filter (\<lambda>c. 0 < fst (snd c)) (sent es)"

definition ledger :: "event list \<Rightarrow> (string \<times> real) list" where
  "ledger es = map (\<lambda>c. (fst c, fst (snd c))) (filter (\<lambda>c. snd (snd c)) (sent es))"



fun is_Simulated :: "event \<Rightarrow> bool" where
  "is_Simulated (Simulated r) = True"
| "is_Simulated e = False"

text \<open>A table of teams after the commands of a ledger, in their order.\<close>

definition apply_ledger :: "(string \<times> real) list \<Rightarrow> teams_table \<Rightarrow> teams_table" where
  "apply_ledger l tbl = fold (\<lambda>p. update_budget (snd p) (fst p)) l tbl"

subsection \<open>Example data\<close>

definition second_car :: car where
  "second_car = \<lparr>TEAM_NAME = ''B'', MODEL = ''Escort'', HORSEPOWER = 150,
     DRIVETRAIN = ''RWD'', MIN_WEIGHT_KG = 1000, DRIVER_NAME = ''Bob'',
     SKILL_LEVEL = 50, LUCK_LEVEL = 50\<rparr>"

definition third_car :: car where
  "third_car = \<lparr>TEAM_NAME = ''A'', MODEL = ''Stratos'', HORSEPOWER = 190,
     DRIVETRAIN = ''RWD'', MIN_WEIGHT_KG = 980, DRIVER_NAME = ''Cid'',
     SKILL_LEVEL = 60, LUCK_LEVEL = 10\<rparr>"

definition example_cars :: "car list" where
  "example_cars = [rally_car, second_car, third_car]"

definition example_teams :: teams_table where
  "example_teams = [(''A'', 50000), (''B'', 20000)]"

text \<open>An entrant whose horsepower is negative.\<close>

definition reversing_car :: car where
  "reversing_car = rally_car\<lparr>HORSEPOWER := - 200, DRIVETRAIN := ''RWD''\<rparr>"

subsection \<open>Facts about the performance model\<close>

lemma skill_factor_pos: "1 \<le> SKILL_LEVEL c \<Longrightarrow> 0 < skill_factor c"
  unfolding skill_factor_def by (simp add: field_simps)

lemma drivetrain_bonus_pos: "0 < drivetrain_bonus c"
  by (simp add: drivetrain_bonus_def)

lemma luck_pos: "LUCK_LEVEL c \<le> 100 \<Longrightarrow> in_luck_range c l \<Longrightarrow> 0 < l"
  unfolding in_luck_range_def by (simp add: field_simps)





lemma luck_factor_range:
  assumes "0 \<le> u" and "u \<le> 1" and "0 \<le> LUCK_LEVEL c"
  shows "in_luck_range c (luck_factor c u)"
proof -
  let ?d = "LUCK_LEVEL c / 1000"
  have d: "0 \<le> ?d" using assms(3) by simp
  have eq: "luck_factor c u = 1 - ?d + 2 * ?d * u"
    by (simp add: luck_factor_def uniform_def algebra_simps)
  have "0 \<le> 2 * ?d * u"
    using d assms(1) by (intro mult_nonneg_nonneg) simp_all
  moreover have "2 * ?d * u \<le> 2 * ?d * 1"
    using d assms(2) by (intro mult_left_mono) simp_all
  ultimately show ?thesis
    unfolding in_luck_range_def eq by linarith
qed

text \<open>
  C1. For an entrant with horsepower \<open>h\<close>, minimum weight \<open>w\<close>, drivetrain \<open>d\<close>
  and skill level \<open>s\<close>, and the luck factor \<open>l\<close> that \<^verbatim>\<open>random.uniform\<close>
  returns for the draw \<open>u\<close> of the random source, the time is
  \<open>100 / ((h / w) * b * (1 + ((s - 50) / 50) * 0.1) * l)\<close> with \<open>b = 1.05\<close> for
  \<open>d = ''4WD''\<close> and \<open>1.0\<close> otherwise, and \<open>l\<close> is the point of the interval from
  \<open>1 - luck/1000\<close> to \<open>1 + luck/1000\<close> at the fraction \<open>u\<close> of its width. The
  hypotheses are those under which the formula has no zero divisor.
\<close>

theorem time_taken_formula:
  assumes "HORSEPOWER c \<noteq> 0" and "MIN_WEIGHT_KG c \<noteq> 0" and "SKILL_LEVEL c \<noteq> - 450"
    and "0 \<le> LUCK_LEVEL c" and "LUCK_LEVEL c < 1000" and "0 \<le> u" and "u \<le> 1"
  shows "\<exists>l. l = uniform (1 - LUCK_LEVEL c / 1000) (1 + LUCK_LEVEL c / 1000) u
    \<and> 1 - LUCK_LEVEL c / 1000 \<le> l \<and> l \<le> 1 + LUCK_LEVEL c / 1000
    \<and> luck_factor c u = l
    \<and> time_taken c l =
        Inr (100 / ((HORSEPOWER c / MIN_WEIGHT_KG c)
                    * (if DRIVETRAIN c = ''4WD'' then 1.05 else 1.0)
                    * (1 + ((SKILL_LEVEL c - 50) / 50) * 0.1) * l))"
proof -
  let ?l = "luck_factor c u"
  have r: "in_luck_range c ?l"
    by (rule luck_factor_range) fact+
  then have "0 < ?l"
    using assms(5) unfolding in_luck_range_def by (simp add: field_simps)
  then have l: "?l \<noteq> 0" by simp
  have b: "drivetrain_bonus c \<noteq> 0"
    using drivetrain_bonus_pos [of c] by simp
  have s: "skill_factor c \<noteq> 0"
    using assms(3) unfolding skill_factor_def by (simp add: field_simps)
  have p: "HORSEPOWER c / MIN_WEIGHT_KG c \<noteq> 0"
    using assms(1,2) by simp
  have "HORSEPOWER c / MIN_WEIGHT_KG c * drivetrain_bonus c * skill_factor c * ?l \<noteq> 0"
    using p b s l by (simp only: mult_eq_0_iff) blast
  then have "time_taken c ?l =
      Inr (100 / (HORSEPOWER c / MIN_WEIGHT_KG c * drivetrain_bonus c * skill_factor c * ?l))"
    using assms(2) by (simp add: time_taken_def truediv_def)
  then show ?thesis
    using r unfolding in_luck_range_def luck_factor_def drivetrain_bonus_def skill_factor_def
    by blast
qed

theorem time_taken_formula_witness:
  "HORSEPOWER rally_car \<noteq> 0 \<and> MIN_WEIGHT_KG rally_car \<noteq> 0 \<and> SKILL_LEVEL rally_car \<noteq> - 450
   \<and> 0 \<le> LUCK_LEVEL rally_car \<and> LUCK_LEVEL rally_car < 1000
   \<and> luck_factor rally_car (1 / 2) = 1
   \<and> time_taken rally_car (luck_factor rally_car (1 / 2)) = Inr (10000 / 21)"
proof -
  have h: "HORSEPOWER rally_car \<noteq> 0" "MIN_WEIGHT_KG rally_car \<noteq> 0"
    "SKILL_LEVEL rally_car \<noteq> - 450" "0 \<le> LUCK_LEVEL rally_car" "LUCK_LEVEL rally_car < 1000"
    by (simp_all add: rally_car_def)
  have u: "(0::real) \<le> 1 / 2" "(1::real) / 2 \<le> 1"
    by simp_all
  from time_taken_formula [OF h u] obtain l where
    l: "l = uniform (1 - LUCK_LEVEL rally_car / 1000) (1 + LUCK_LEVEL rally_car / 1000) (1 / 2)"
      "luck_factor rally_car (1 / 2) = l"
      "time_taken rally_car l =
        Inr (100 / ((HORSEPOWER rally_car / MIN_WEIGHT_KG rally_car)
                    * (if DRIVETRAIN rally_car = ''4WD'' then 1.05 else 1.0)
                    * (1 + ((SKILL_LEVEL rally_car - 50) / 50) * 0.1) * l))"
    by blast
  from l(1) have l1: "l = 1"
    by (simp add: uniform_def rally_car_def)
  from l(3) have "time_taken rally_car 1 = Inr (10000 / 21)"
    unfolding l1 by (simp add: rally_car_def)
  with h l(2) l1 show ?thesis by simp
qed

text \<open>
  C2, as the claim states it, fails: an entrant with negative horsepower gets a time
  (a negative one), and no error.
\<close>

theorem no_invalid_entrant_counterexample:
  "HORSEPOWER reversing_car \<le> 0 \<and> in_luck_range reversing_car 1
   \<and> time_taken reversing_car 1 = Inr (- 500)"
  by (simp add: reversing_car_def rally_car_def in_luck_range_def time_taken_def truediv_def
      drivetrain_bonus_def skill_factor_def)

text \<open>
  C2, amended. The code has no guard: for an entrant whose horsepower or minimum weight
  is not positive (skill and luck as for a valid entrant), the time is the error
  \<^verbatim>\<open>ZeroDivisionError\<close> when the horsepower or the weight is zero, and otherwise the
  number that the formula gives.
\<close>

theorem non_positive_entrant:
  assumes "HORSEPOWER c \<le> 0 \<or> MIN_WEIGHT_KG c \<le> 0"
    and "1 \<le> SKILL_LEVEL c" and "SKILL_LEVEL c \<le> 100"
    and "1 \<le> LUCK_LEVEL c" and "LUCK_LEVEL c \<le> 100"
    and "in_luck_range c l"
  shows "time_taken c l =
    (if HORSEPOWER c = 0 \<or> MIN_WEIGHT_KG c = 0 then Inl ZeroDivisionError
     else Inr (100 / (HORSEPOWER c / MIN_WEIGHT_KG c * drivetrain_bonus c * skill_factor c * l)))"
proof -
  have l: "l \<noteq> 0"
    using luck_pos [OF assms(5,6)] by simp
  have b: "drivetrain_bonus c \<noteq> 0"
    using drivetrain_bonus_pos [of c] by simp
  have s: "skill_factor c \<noteq> 0"
    using skill_factor_pos [OF assms(2)] by simp
  have z: "HORSEPOWER c / MIN_WEIGHT_KG c * drivetrain_bonus c * skill_factor c * l = 0
      \<longleftrightarrow> HORSEPOWER c = 0 \<or> MIN_WEIGHT_KG c = 0"
    using l b s by simp
  show ?thesis
  proof (cases "MIN_WEIGHT_KG c = 0")
    case True
    then show ?thesis by (simp add: time_taken_def truediv_def)
  next
    case False
    then show ?thesis
      using z by (simp add: time_taken_def truediv_def del: mult_eq_0_iff divide_eq_0_iff)
  qed
qed

theorem non_positive_entrant_witness:
  "(HORSEPOWER reversing_car \<le> 0 \<or> MIN_WEIGHT_KG reversing_car \<le> 0)
   \<and> in_luck_range reversing_car 1
   \<and> time_taken reversing_car 1 = Inr (- 500)
   \<and> time_taken (reversing_car\<lparr>MIN_WEIGHT_KG := 0\<rparr>) 1 = Inl ZeroDivisionError"
proof -
  have h: "HORSEPOWER reversing_car \<le> 0 \<or> MIN_WEIGHT_KG reversing_car \<le> 0"
    "1 \<le> SKILL_LEVEL reversing_car" "SKILL_LEVEL reversing_car \<le> 100"
    "1 \<le> LUCK_LEVEL reversing_car" "LUCK_LEVEL reversing_car \<le> 100"
    "in_luck_range reversing_car 1"
    by (simp_all add: reversing_car_def rally_car_def in_luck_range_def)
  let ?z = "reversing_car\<lparr>MIN_WEIGHT_KG := 0\<rparr>"
  have hz: "HORSEPOWER ?z \<le> 0 \<or> MIN_WEIGHT_KG ?z \<le> 0"
    "1 \<le> SKILL_LEVEL ?z" "SKILL_LEVEL ?z \<le> 100"
    "1 \<le> LUCK_LEVEL ?z" "LUCK_LEVEL ?z \<le> 100"
    "in_luck_range ?z 1"
    by (simp_all add: reversing_car_def rally_car_def in_luck_range_def)
  have "time_taken reversing_car 1 = Inr (- 500)"
    using non_positive_entrant [OF h]
    by (simp add: reversing_car_def rally_car_def drivetrain_bonus_def skill_factor_def)
  moreover have "time_taken ?z 1 = Inl ZeroDivisionError"
    using non_positive_entrant [OF hz] by simp
  ultimately show ?thesis
    using h by simp
qed






text \<open>
  C10. The bonus is 1.05 exactly when the drivetrain is the string \<open>''4WD''\<close>; every
  other string, \<open>''4wd''\<close> and \<open>''AWD''\<close> among them, gets 1.
\<close>

theorem drivetrain_bonus_exact:
  "(drivetrain_bonus c = 1.05) = (DRIVETRAIN c = ''4WD'')
   \<and> (drivetrain_bonus c = 1) = (DRIVETRAIN c \<noteq> ''4WD'')
   \<and> drivetrain_bonus (c\<lparr>DRIVETRAIN := ''4wd''\<rparr>) = 1
   \<and> drivetrain_bonus (c\<lparr>DRIVETRAIN := ''AWD''\<rparr>) = 1
   \<and> drivetrain_bonus (c\<lparr>DRIVETRAIN := ''4WD''\<rparr>) = 1.05"
  by (simp add: drivetrain_bonus_def)


subsection \<open>Facts about the race\<close>

lemma unique_from_set: "set (unique_from seen xs) = set xs - set seen"
  by (induction xs arbitrary: seen) auto

lemma unique_from_distinct: "distinct (unique_from seen xs)"
  by (induction xs arbitrary: seen) (auto simp: unique_from_set)

lemma set_unique: "set (unique xs) = set xs"
  by (simp add: unique_def unique_from_set)

lemma distinct_unique: "distinct (unique xs)"
  by (simp add: unique_def unique_from_distinct)

lemma length_unique: "length (unique xs) = card (set xs)"
  using distinct_card [OF distinct_unique, of xs] by (simp add: set_unique)

lemma sent_append: "sent (xs @ ys) = sent xs @ sent ys"
  by (induction xs rule: sent.induct) auto

lemma sent_Simulated: "sent (map Simulated rs) = []"
  by (induction rs) auto

lemma ledger_append: "ledger (xs @ ys) = ledger xs @ ledger ys"
  by (simp add: ledger_def sent_append)


lemma prize_commands_append: "prize_commands (xs @ ys) = prize_commands xs @ prize_commands ys"
  by (simp add: prize_commands_def sent_append)


lemma apply_ledger_append:
  "apply_ledger (xs @ ys) tbl = apply_ledger ys (apply_ledger xs tbl)"
  by (simp add: apply_ledger_def)


lemma execute_command_Inr:
  assumes "execute_command db delta team w = Inr (ok, w')"
  shows "ok = (db (commands w) = Applied) \<and> commands w' = Suc (commands w)
    \<and> trace w' = trace w @ Command team delta ok # (if ok then [] else [Error_shown])
    \<and> teams w' = (if ok then update_budget delta team (teams w) else teams w)"
  using assms by (auto simp: execute_command_def log_def Let_def split: db_outcome.splits)

lemma execute_command_Inl:
  assumes "execute_command db delta team w = Inl w'"
  shows "trace w' = trace w @ [Error_shown] \<and> teams w' = teams w
    \<and> db (commands w) = ConnectionFailed"
  using assms by (auto simp: execute_command_def log_def Let_def split: db_outcome.splits)


lemma execute_command_ledger:
  assumes "execute_command db delta team w = Inr (ok, w')"
  shows "\<exists>es. trace w' = trace w @ es \<and> sent es = [(team, delta, ok)]
    \<and> (\<forall>e \<in> set es. \<not> is_Simulated e)
    \<and> teams w' = apply_ledger (ledger es) (teams w)"
proof -
  let ?es = "Command team delta ok # (if ok then [] else [Error_shown])"
  from execute_command_Inr [OF assms] have
    "trace w' = trace w @ ?es"
    "teams w' = (if ok then update_budget delta team (teams w) else teams w)"
    by simp_all
  then have "trace w' = trace w @ ?es \<and> sent ?es = [(team, delta, ok)]
    \<and> (\<forall>e \<in> set ?es. \<not> is_Simulated e)
    \<and> teams w' = apply_ledger (ledger ?es) (teams w)"
    by (simp add: ledger_def apply_ledger_def)
  then show ?thesis ..
qed

lemma collect_fees_Inr:
  "collect_fees db ts w = Inr w' \<Longrightarrow>
   \<exists>es. trace w' = trace w @ es \<and> commands w' = commands w + length ts
     \<and> map (\<lambda>c. (fst c, fst (snd c))) (sent es) = map (\<lambda>team. (team, - FEE)) ts
     \<and> (\<forall>e \<in> set es. \<not> is_Simulated e)
     \<and> teams w' = apply_ledger (ledger es) (teams w)
     \<and> ((\<forall>i < length ts. db (commands w + i) = Applied) \<longrightarrow>
          sent es = map (\<lambda>team. (team, - FEE, True)) ts)"
proof (induction ts arbitrary: w)
  case Nil
  then show ?case by (simp add: ledger_def apply_ledger_def)
next
  case (Cons t ts)
  from Cons.prems obtain ok w1 where
    ex: "execute_command db (- FEE) t w = Inr (ok, w1)" and
    rest: "collect_fees db ts w1 = Inr w'"
    by (auto split: sum.splits)
  from execute_command_Inr [OF ex] have
    ok: "ok = (db (commands w) = Applied)" and c1: "commands w1 = Suc (commands w)"
    by simp_all
  from execute_command_ledger [OF ex] obtain es1 where
    es1: "trace w1 = trace w @ es1" "sent es1 = [(t, - FEE, ok)]"
      "\<forall>e \<in> set es1. \<not> is_Simulated e" "teams w1 = apply_ledger (ledger es1) (teams w)"
    by blast
  from Cons.IH [OF rest] obtain es where
    es: "trace w' = trace w1 @ es" "commands w' = commands w1 + length ts"
      "map (\<lambda>c. (fst c, fst (snd c))) (sent es) = map (\<lambda>team. (team, - FEE)) ts"
      "\<forall>e \<in> set es. \<not> is_Simulated e"
      "teams w' = apply_ledger (ledger es) (teams w1)"
      "(\<forall>i < length ts. db (commands w1 + i) = Applied) \<longrightarrow>
         sent es = map (\<lambda>team. (team, - FEE, True)) ts"
    by blast
  have applied: "sent (es1 @ es) = map (\<lambda>team. (team, - FEE, True)) (t # ts)"
    if all: "\<forall>i < length (t # ts). db (commands w + i) = Applied"
  proof -
    from all [rule_format, of 0] have "db (commands w) = Applied" by simp
    then have "ok" using ok by simp
    moreover have "\<forall>i < length ts. db (commands w1 + i) = Applied"
    proof (intro allI impI)
      fix i assume "i < length ts"
      then have "Suc i < length (t # ts)" by simp
      with all have "db (commands w + Suc i) = Applied" by blast
      with c1 show "db (commands w1 + i) = Applied" by simp
    qed
    ultimately show ?thesis
      using es(6) es1(2) by (simp add: sent_append)
  qed
  have "trace w' = trace w @ (es1 @ es)"
    using es1(1) es(1) by simp
  moreover have "commands w' = commands w + length (t # ts)"
    using c1 es(2) by simp
  moreover have "map (\<lambda>c. (fst c, fst (snd c))) (sent (es1 @ es)) =
      map (\<lambda>team. (team, - FEE)) (t # ts)"
    using es1(2) es(3) by (simp add: sent_append)
  moreover have "\<forall>e \<in> set (es1 @ es). \<not> is_Simulated e"
    using es1(3) es(4) by auto
  moreover have "teams w' = apply_ledger (ledger (es1 @ es)) (teams w)"
    using es1(4) es(5) by (simp add: ledger_append apply_ledger_append)
  ultimately show ?case
    using applied by blast
qed

lemma collect_fees_Inl:
  "collect_fees db ts w = Inl w' \<Longrightarrow>
   \<exists>es k. trace w' = trace w @ es
     \<and> map (\<lambda>c. (fst c, fst (snd c))) (sent es) = map (\<lambda>team. (team, - FEE)) (take k ts)
     \<and> (\<forall>e \<in> set es. \<not> is_Simulated e)
     \<and> teams w' = apply_ledger (ledger es) (teams w)"
proof (induction ts arbitrary: w)
  case Nil
  then show ?case by simp
next
  case (Cons t ts)
  show ?case
  proof (cases "execute_command db (- FEE) t w")
    case (Inl w1)
    with Cons.prems have "w' = w1" by simp
    with execute_command_Inl [OF Inl] show ?thesis
      by (intro exI [of _ "[Error_shown]"] exI [of _ 0]) (simp add: ledger_def apply_ledger_def)
  next
    case (Inr p)
    obtain ok w1 where p: "p = (ok, w1)" by (cases p)
    with Inr Cons.prems have "collect_fees db ts w1 = Inl w'" by simp
    from Cons.IH [OF this] obtain es k where
      es: "trace w' = trace w1 @ es"
        "map (\<lambda>c. (fst c, fst (snd c))) (sent es) = map (\<lambda>team. (team, - FEE)) (take k ts)"
        "\<forall>e \<in> set es. \<not> is_Simulated e"
        "teams w' = apply_ledger (ledger es) (teams w1)"
      by blast
    from execute_command_ledger [OF Inr [unfolded p]] obtain es1 where
      es1: "trace w1 = trace w @ es1" "sent es1 = [(t, - FEE, ok)]"
        "\<forall>e \<in> set es1. \<not> is_Simulated e" "teams w1 = apply_ledger (ledger es1) (teams w)"
      by blast
    have "trace w' = trace w @ (es1 @ es)"
      using es1(1) es(1) by simp
    moreover have "map (\<lambda>c. (fst c, fst (snd c))) (sent (es1 @ es)) =
        map (\<lambda>team. (team, - FEE)) (take (Suc k) (t # ts))"
      using es1(2) es(2) by (simp add: sent_append)
    moreover have "\<forall>e \<in> set (es1 @ es). \<not> is_Simulated e"
      using es1(3) es(3) by auto
    moreover have "teams w' = apply_ledger (ledger (es1 @ es)) (teams w)"
      using es1(4) es(4) by (simp add: ledger_append apply_ledger_append)
    ultimately show ?thesis by blast
  qed
qed



lemma simulate_length: "simulate rng i cs = (rs, None) \<Longrightarrow> length rs = length cs"
  by (induction cs arbitrary: i rs) (auto split: sum.splits prod.splits)

lemma PRIZE_pos: "cars_df \<noteq> [] \<Longrightarrow> 0 < PRIZE cars_df"
proof -
  assume "cars_df \<noteq> []"
  then have "set (unique (map TEAM_NAME cars_df)) \<noteq> {}"
    by (simp add: set_unique)
  then have "0 < length (unique (map TEAM_NAME cars_df))" by auto
  then show ?thesis by (simp add: PRIZE_def FEE_def)
qed

lemma award_trace:
  assumes "award sort_values db prize rs w = (out, w')" and "0 < prize"
  shows "\<exists>es. trace w' = trace w @ es \<and> fee_commands es = []
    \<and> teams w' = apply_ledger (ledger es) (teams w)"
proof (cases "sort_values rs")
  case Nil
  with assms show ?thesis
    by (simp add: award_def fee_commands_def ledger_def apply_ledger_def)
next
  case (Cons winner others)
  let ?shown = "[Results_shown (winner # others), Winner_shown (Driver winner) (Team winner)]"
  let ?w1 = "log ?shown w"
  show ?thesis
  proof (cases "execute_command db prize (Team winner) ?w1")
    case (Inl w2)
    with assms Cons have "w' = w2" by (simp add: award_def)
    with execute_command_Inl [OF Inl] have
      "trace w' = trace w @ (?shown @ [Error_shown]) \<and> fee_commands (?shown @ [Error_shown]) = []
       \<and> teams w' = apply_ledger (ledger (?shown @ [Error_shown])) (teams w)"
      by (simp add: log_def fee_commands_def ledger_def apply_ledger_def)
    then show ?thesis ..
  next
    case (Inr p)
    obtain ok w2 where p: "p = (ok, w2)" by (cases p)
    with Inr assms Cons have w': "w' = log [Award_shown prize (Team winner), Rerun] w2"
      by (simp add: award_def)
    from execute_command_ledger [OF Inr [unfolded p]] obtain es1 where
      es1: "trace w2 = trace ?w1 @ es1" "sent es1 = [(Team winner, prize, ok)]"
        "teams w2 = apply_ledger (ledger es1) (teams ?w1)"
      by blast
    let ?es = "?shown @ es1 @ [Award_shown prize (Team winner), Rerun]"
    have "trace w' = trace w @ ?es"
      using w' es1(1) by (simp add: log_def)
    moreover have "fee_commands ?es = []"
      using es1(2) assms(2) by (simp add: fee_commands_def sent_append)
    moreover have "teams w' = apply_ledger (ledger ?es) (teams w)"
      using w' es1(2,3) by (simp add: log_def ledger_def sent_append)
    ultimately show ?thesis by blast
  qed
qed


lemma start_race_after_fees:
  assumes "2 \<le> length cars_df"
    and "collect_fees db (unique (map TEAM_NAME cars_df))
          (log [Info_shown, Details_shown FEE (PRIZE cars_df)]
            \<lparr>teams = teams0, commands = 0, trace = []\<rparr>) = Inr w2"
  shows "\<exists>rs es. trace (snd (start_race sort_values db rng cars_df teams0)) =
           trace w2 @ Fees_collected_shown # map Simulated rs @ es
    \<and> (rs = [] \<longrightarrow> es = []) \<and> fee_commands es = []
    \<and> teams (snd (start_race sort_values db rng cars_df teams0)) =
        apply_ledger (ledger es) (teams w2)"
proof -
  from assms(1) have ne: "cars_df \<noteq> []" by auto
  obtain rs err where sim: "simulate rng 0 cars_df = (rs, err)"
    by (cases "simulate rng 0 cars_df")
  let ?w3 = "log (Fees_collected_shown # map Simulated rs) w2"
  let ?final = "snd (start_race sort_values db rng cars_df teams0)"
  show ?thesis
  proof (cases err)
    case (Some e)
    with assms sim have "start_race sort_values db rng cars_df teams0 = (Crashed e, ?w3)"
      by (simp add: start_race_def)
    then have "trace ?final = trace w2 @ Fees_collected_shown # map Simulated rs @ []
      \<and> (rs = [] \<longrightarrow> [] = []) \<and> fee_commands [] = []
      \<and> teams ?final = apply_ledger (ledger []) (teams w2)"
      by (simp add: log_def fee_commands_def ledger_def apply_ledger_def)
    then show ?thesis by blast
  next
    case None
    obtain out w' where aw: "award sort_values db (PRIZE cars_df) rs ?w3 = (out, w')"
      by (cases "award sort_values db (PRIZE cars_df) rs ?w3")
    with None assms sim have final: "start_race sort_values db rng cars_df teams0 = (out, w')"
      by (simp add: start_race_def)
    from simulate_length [OF sim [unfolded None]] assms(1) have "rs \<noteq> []"
      by auto
    moreover from award_trace [OF aw PRIZE_pos [OF ne]] obtain es where
      "trace w' = trace ?w3 @ es" "fee_commands es = []"
      "teams w' = apply_ledger (ledger es) (teams ?w3)"
      by blast
    ultimately have "trace ?final = trace w2 @ Fees_collected_shown # map Simulated rs @ es
      \<and> (rs = [] \<longrightarrow> es = []) \<and> fee_commands es = []
      \<and> teams ?final = apply_ledger (ledger es) (teams w2)"
      using final by (simp add: log_def)
    then show ?thesis by blast
  qed
qed


lemma ledger_Simulated: "ledger (map Simulated rs) = []"
  by (simp add: ledger_def sent_Simulated)


lemma prize_commands_Simulated: "prize_commands (map Simulated rs) = []"
  by (simp add: prize_commands_def sent_Simulated)

lemma sent_opening:
  "sent (Info_shown # Details_shown fee prize # es) = sent es"
  by simp

lemma sent_after_fees:
  "sent (fs @ Fees_collected_shown # map Simulated rs @ es) = sent fs @ sent es"
  by (simp add: sent_append sent_Simulated)


lemma start_race_stopped_in_fees:
  assumes "2 \<le> length cars_df"
    and "collect_fees db (unique (map TEAM_NAME cars_df))
          (log [Info_shown, Details_shown FEE (PRIZE cars_df)]
            \<lparr>teams = teams0, commands = 0, trace = []\<rparr>) = Inl w2"
  shows "\<exists>fs k. trace (snd (start_race sort_values db rng cars_df teams0)) =
      Info_shown # Details_shown FEE (PRIZE cars_df) # fs
    \<and> map (\<lambda>c. (fst c, fst (snd c))) (sent fs) =
        map (\<lambda>team. (team, - FEE)) (take k (unique (map TEAM_NAME cars_df)))
    \<and> (\<forall>e \<in> set fs. \<not> is_Simulated e)
    \<and> teams (snd (start_race sort_values db rng cars_df teams0)) =
        apply_ledger (ledger fs) teams0"
proof -
  let ?w1 = "log [Info_shown, Details_shown FEE (PRIZE cars_df)]
    \<lparr>teams = teams0, commands = 0, trace = []\<rparr>"
  from assms have final: "start_race sort_values db rng cars_df teams0 = (Stopped, w2)"
    by (simp add: start_race_def)
  from collect_fees_Inl [OF assms(2)] obtain fs k where
    fs: "trace w2 = trace ?w1 @ fs"
      "map (\<lambda>c. (fst c, fst (snd c))) (sent fs) =
        map (\<lambda>team. (team, - FEE)) (take k (unique (map TEAM_NAME cars_df)))"
      "\<forall>e \<in> set fs. \<not> is_Simulated e"
      "teams w2 = apply_ledger (ledger fs) (teams ?w1)"
    by blast
  have "trace (snd (start_race sort_values db rng cars_df teams0)) =
      Info_shown # Details_shown FEE (PRIZE cars_df) # fs"
    using final fs(1) by (simp add: log_def)
  moreover have "teams (snd (start_race sort_values db rng cars_df teams0)) =
      apply_ledger (ledger fs) teams0"
    using final fs(4) by (simp add: log_def)
  ultimately show ?thesis
    using fs(2,3) by blast
qed

lemma start_race_past_fees:
  assumes "2 \<le> length cars_df"
    and "collect_fees db (unique (map TEAM_NAME cars_df))
          (log [Info_shown, Details_shown FEE (PRIZE cars_df)]
            \<lparr>teams = teams0, commands = 0, trace = []\<rparr>) = Inr w2"
  shows "\<exists>fs rs es. trace (snd (start_race sort_values db rng cars_df teams0)) =
      Info_shown # Details_shown FEE (PRIZE cars_df) # fs
        @ Fees_collected_shown # map Simulated rs @ es
    \<and> map (\<lambda>c. (fst c, fst (snd c))) (sent fs) =
        map (\<lambda>team. (team, - FEE)) (unique (map TEAM_NAME cars_df))
    \<and> ((\<forall>i < length (unique (map TEAM_NAME cars_df)). db i = Applied) \<longrightarrow>
          sent fs = map (\<lambda>team. (team, - FEE, True)) (unique (map TEAM_NAME cars_df)))
    \<and> (\<forall>e \<in> set fs. \<not> is_Simulated e)
    \<and> (rs = [] \<longrightarrow> es = []) \<and> fee_commands es = []
    \<and> teams (snd (start_race sort_values db rng cars_df teams0)) =
        apply_ledger (ledger es) (apply_ledger (ledger fs) teams0)"
proof -
  let ?ts = "unique (map TEAM_NAME cars_df)"
  let ?w1 = "log [Info_shown, Details_shown FEE (PRIZE cars_df)]
    \<lparr>teams = teams0, commands = 0, trace = []\<rparr>"
  let ?final = "snd (start_race sort_values db rng cars_df teams0)"
  from collect_fees_Inr [OF assms(2)] obtain fs where
    fs: "trace w2 = trace ?w1 @ fs"
      "map (\<lambda>c. (fst c, fst (snd c))) (sent fs) = map (\<lambda>team. (team, - FEE)) ?ts"
      "\<forall>e \<in> set fs. \<not> is_Simulated e"
      "teams w2 = apply_ledger (ledger fs) (teams ?w1)"
      "(\<forall>i < length ?ts. db (commands ?w1 + i) = Applied) \<longrightarrow>
         sent fs = map (\<lambda>team. (team, - FEE, True)) ?ts"
    by blast
  from start_race_after_fees [OF assms] obtain rs es where
    post: "trace ?final = trace w2 @ Fees_collected_shown # map Simulated rs @ es"
      "rs = [] \<longrightarrow> es = []" "fee_commands es = []"
      "teams ?final = apply_ledger (ledger es) (teams w2)"
    by blast
  have a: "trace ?final = Info_shown # Details_shown FEE (PRIZE cars_df) # fs
      @ Fees_collected_shown # map Simulated rs @ es"
    using post(1) fs(1) by (simp add: log_def)
  have b: "(\<forall>i < length ?ts. db i = Applied) \<longrightarrow>
      sent fs = map (\<lambda>team. (team, - FEE, True)) ?ts"
    using fs(5) by (simp add: log_def)
  have c: "teams ?final = apply_ledger (ledger es) (apply_ledger (ledger fs) teams0)"
    using post(4) fs(4) by (simp add: log_def)
  from a b c fs(2,3) post(2,3) show ?thesis
    by blast
qed





lemma start_race_opening:
  assumes "2 \<le> length cars_df"
  shows "\<exists>rest. trace (snd (start_race sort_values db rng cars_df teams0)) =
    Info_shown # Details_shown FEE (PRIZE cars_df) # rest"
proof (cases "collect_fees db (unique (map TEAM_NAME cars_df))
    (log [Info_shown, Details_shown FEE (PRIZE cars_df)]
      \<lparr>teams = teams0, commands = 0, trace = []\<rparr>)")
  case (Inl w2)
  from start_race_stopped_in_fees [OF assms Inl] show ?thesis by blast
next
  case (Inr w2)
  from start_race_past_fees [OF assms Inr] show ?thesis by blast
qed





text \<open>
  C3. With fewer than two entrants the race is aborted: the warning is the only thing
  shown, no command is sent to the database (no fee is debited, no prize credited) and
  the table of the teams is as it was.
\<close>

theorem too_few_entrants_abort:
  assumes "length cars_df < 2"
  shows "start_race sort_values db rng cars_df teams0 =
    (Aborted, \<lparr>teams = teams0, commands = 0, trace = [Warning_shown]\<rparr>)"
  using assms by (simp add: start_race_def log_def)

theorem too_few_entrants_abort_witness:
  "length [rally_car] < 2
   \<and> start_race (sort_key Time) (\<lambda>n. Applied) (\<lambda>n. 1 / 2) [rally_car] example_teams =
      (Aborted, \<lparr>teams = example_teams, commands = 0, trace = [Warning_shown]\<rparr>)"
proof -
  have h: "length [rally_car] < 2" by simp
  show ?thesis
    using h too_few_entrants_abort [OF h] by simp
qed




text \<open>
  C5. In a race that passes validation, the prize computed and shown is
  \<open>0.8 * 1000\<close> times the number of distinct teams among the entrants, however many
  cars a team enters.
\<close>

theorem prize_pool_distinct_teams:
  assumes "2 \<le> length cars_df"
  shows "PRIZE cars_df = 0.8 * 1000 * real (card (TEAM_NAME ` set cars_df))
    \<and> (\<exists>rest. trace (snd (start_race sort_values db rng cars_df teams0)) =
          Info_shown # Details_shown 1000 (PRIZE cars_df) # rest)"
proof -
  have "PRIZE cars_df = 0.8 * 1000 * real (card (TEAM_NAME ` set cars_df))"
    by (simp add: PRIZE_def FEE_def length_unique)
  with start_race_opening [OF assms, of sort_values db rng teams0] show ?thesis
    by (simp add: FEE_def)
qed

theorem prize_pool_distinct_teams_witness:
  "2 \<le> length example_cars \<and> PRIZE example_cars = 1600
   \<and> card (TEAM_NAME ` set example_cars) = 2"
proof -
  have h: "2 \<le> length example_cars"
    by (simp add: example_cars_def)
  have c: "card (TEAM_NAME ` set example_cars) = 2"
    by code_simp
  show ?thesis
    using h c prize_pool_distinct_teams [OF h] by simp
qed




end
